theory Spec2Isabelle
  imports Complex_Main "HOL-Library.AList"
begin

section \<open>A caching DNS forwarder: the cache store and the request handler\<close>

text \<open>
  The development embeds \<^verbatim>\<open>src/dns/dns_server.py\<close>.

  Conventions of the embedding.
  \<^item> The global dict \<^verbatim>\<open>cache\<close> is an association list in insertion order, as a Python
    dict is; a Python dict has pairwise distinct keys, which theorems about whole-map
    iteration assume as \<open>distinct (map fst c)\<close>.
  \<^item> \<^verbatim>\<open>time.time()\<close> is a real number and the subtraction \<^verbatim>\<open>now - r['timestamp']\<close> is
    exact; rounding of IEEE doubles is not modelled.
  \<^item> The functions of \<^verbatim>\<open>utils\<close> (\<^verbatim>\<open>parse_dns_response\<close>, \<^verbatim>\<open>extract_records\<close>,
    \<^verbatim>\<open>build_dns_response\<close>) are parameters of the handler: each may return a value or
    raise.
  \<^item> Sockets, the snapshot file, the lock and \<^verbatim>\<open>print\<close> are events; every operation
    returns the events it performs in program order, next to the new state.
  \<^item> \<^verbatim>\<open>print\<close> and \<^verbatim>\<open>sock.sendto\<close> to the client are taken to succeed; the calls on the
    upstream socket may fail.
  \<^item> Threads are not modelled: an operation runs from its first to its last statement
    without interleaving.
\<close>

subsection \<open>Data\<close>

type_synonym bytes = "nat list"

text \<open>A record as \<^verbatim>\<open>extract_records\<close> yields it: the dict keys the handler reads.\<close>

record rr =
  name :: string
  type :: nat
  data :: string
  ttl :: int

text \<open>A cache entry: the dict literal of lines 91-97, the same fields and \<^verbatim>\<open>timestamp\<close>.\<close>

record entry = rr +
  timestamp :: real

type_synonym cache = "(string \<times> entry list) list"

datatype exn =
    UtilsError string
  | SocketTimeout
  | OSError
  | KeyError string
  | TypeError
  | UnicodeDecodeError

subsection \<open>Cache keys\<close>

text \<open>\<^verbatim>\<open>f"{query_type}:{query_name}"\<close>: the decimal numeral of the type, a colon, the name.\<close>

definition digit_char :: "nat \<Rightarrow> char" where
  "digit_char d = char_of (48 + d)"

function str_nat :: "nat \<Rightarrow> string" where
  "str_nat n = (if n < 10 then [digit_char n] else str_nat (n div 10) @ [digit_char (n mod 10)])"
  by pat_completeness auto
termination
  by (relation "measure id") auto

declare str_nat.simps [simp del]

definition cache_key :: "nat \<Rightarrow> string \<Rightarrow> string" where
  "cache_key t n = str_nat t @ '':'' @ n"

subsection \<open>Liveness and the three places that filter by it\<close>

text \<open>\<^verbatim>\<open>now - r['timestamp'] < r['ttl']\<close> (lines 26, 51 and 66).\<close>

definition live :: "real \<Rightarrow> entry \<Rightarrow> bool" where
  "live now r \<longleftrightarrow> now - timestamp r < real_of_int (ttl r)"

text \<open>\<^verbatim>\<open>cache.get(key, [])\<close>.\<close>

definition get_default :: "cache \<Rightarrow> string \<Rightarrow> entry list" where
  "get_default c key = (case map_of c key of None \<Rightarrow> [] | Some rs \<Rightarrow> rs)"

text \<open>
  Lines 66-74, the map access of the lookup: the live entries of the key, and the cache
  afterwards. On a hit the cache is not assigned to; otherwise the key is deleted when it
  is present.
\<close>

definition cache_lookup :: "real \<Rightarrow> string \<Rightarrow> cache \<Rightarrow> entry list \<times> cache" where
  "cache_lookup now key c =
     (let valid_records = filter (live now) (get_default c key)
      in if valid_records \<noteq> [] then (valid_records, c)
         else if key \<in> set (map fst c) then (valid_records, AList.delete key c)
         else (valid_records, c))"

text \<open>
  Lines 90-97, one iteration of the insert loop, with \<open>t\<close> the value \<^verbatim>\<open>time.time()\<close>
  returns in that iteration. \<^verbatim>\<open>setdefault\<close> puts a new key last.
\<close>

definition mk_entry :: "rr \<Rightarrow> real \<Rightarrow> entry" where
  "mk_entry rec t =
     \<lparr>name = name rec, type = type rec, data = data rec, ttl = ttl rec, timestamp = t\<rparr>"

definition cache_insert :: "real \<Rightarrow> rr \<Rightarrow> cache \<Rightarrow> cache" where
  "cache_insert t rec c =
     (let k = cache_key (type rec) (name rec)
      in AList.update k (get_default c k @ [mk_entry rec t]) c)"

text \<open>
  Lines 89-97, the loop over \<^verbatim>\<open>records\<close>; \<open>clk i\<close> is what \<^verbatim>\<open>time.time()\<close> returns in
  iteration \<open>i\<close>.
\<close>

fun insert_records :: "(nat \<Rightarrow> real) \<Rightarrow> nat \<Rightarrow> rr list \<Rightarrow> cache \<Rightarrow> cache" where
  "insert_records clk i [] c = c"
| "insert_records clk i (rec # records) c =
     insert_records clk (Suc i) records (cache_insert (clk i) rec c)"

text \<open>
  Lines 50-53 (and, on \<^verbatim>\<open>raw\<close>, lines 25-28): the loop over \<^verbatim>\<open>list(cache)\<close>, a copy of the
  keys taken before the loop. \<^verbatim>\<open>cache[key]\<close> raises \<^verbatim>\<open>KeyError\<close> on an absent key.
\<close>

fun expire_keys :: "real \<Rightarrow> string list \<Rightarrow> cache \<Rightarrow> exn + cache" where
  "expire_keys now [] c = Inr c"
| "expire_keys now (key # keys) c =
     (case map_of c key of
        None \<Rightarrow> Inl (KeyError key)
      | Some rs \<Rightarrow>
          (let c1 = AList.update key (filter (live now) rs) c
           in if filter (live now) rs = [] then expire_keys now keys (AList.delete key c1)
              else expire_keys now keys c1))"

definition expire :: "real \<Rightarrow> cache \<Rightarrow> exn + cache" where
  "expire now c = expire_keys now (map fst c) c"

subsection \<open>Effects\<close>

definition CACHE_FILE :: string where "CACHE_FILE = ''cache.json''"
definition UPSTREAM_DNS :: string where "UPSTREAM_DNS = ''8.8.8.8''"
definition BUFFER_SIZE :: nat where "BUFFER_SIZE = 512"

type_synonym addr = "string \<times> nat"

text \<open>The lines the program prints.\<close>

datatype msg =
    INFO_loaded nat
  | INFO_not_found
  | WARNING_corrupt
  | INFO_cleaned nat
  | CACHE_HIT string nat
  | CACHE_MISS string nat
  | ERROR exn bytes

text \<open>
  What an operation does besides computing, in program order. \<open>CacheAccess\<close> marks a
  statement that reads or writes the entries of \<^verbatim>\<open>cache\<close> or rebinds the global (one
  event per executed statement; a loop over keys contributes one for \<^verbatim>\<open>list(cache)\<close>
  and one per iteration). \<open>CacheLen\<close> is the \<^verbatim>\<open>len(cache)\<close> of a log line.
\<close>

datatype event =
    LockAcquire
  | LockRelease
  | CacheAccess
  | CacheLen
  | Print msg
  | SendTo bytes addr
  | SocketOpen
  | SetTimeout nat
  | UpstreamSendTo bytes addr
  | UpstreamRecvFrom nat
  | FileOpen string string
  | JsonLoad
  | JsonDump cache
  | Sleep nat

text \<open>
  The snapshot file as \<^verbatim>\<open>load_cache\<close> can find it:
  \<^item> \<open>Missing\<close>: \<^verbatim>\<open>open\<close> raises \<^verbatim>\<open>FileNotFoundError\<close>;
  \<^item> \<open>Unreadable\<close>: \<^verbatim>\<open>open\<close> raises another \<^verbatim>\<open>OSError\<close> (no permission, a directory);
  \<^item> \<open>Undecodable\<close>: the bytes are not text in the encoding of \<^verbatim>\<open>open\<close>, and the read
    inside \<^verbatim>\<open>json.load\<close> raises \<^verbatim>\<open>UnicodeDecodeError\<close>, which is not a
    \<^verbatim>\<open>JSONDecodeError\<close>;
  \<^item> \<open>Unparseable\<close>: text that is not JSON, \<^verbatim>\<open>json.load\<close> raises \<^verbatim>\<open>JSONDecodeError\<close>;
  \<^item> \<open>Snapshot raw\<close>: the JSON text of a dict of the cache's shape;
  \<^item> \<open>EmptyNonDict\<close>: the JSON text of the empty list or the empty string, over which
    the loop of lines 25-28 has nothing to iterate;
  \<^item> \<open>Misshapen ex\<close>: any other JSON, on which \<^verbatim>\<open>list(raw)\<close> or the loop of lines 25-28
    raises \<open>ex\<close> (a \<^verbatim>\<open>TypeError\<close>, \<^verbatim>\<open>KeyError\<close> or the like).

  \<^verbatim>\<open>json.load\<close> of what \<^verbatim>\<open>json.dump\<close> wrote is taken to give back an equal dict (string
  keys, string and number fields).
\<close>

datatype snapshot_file =
    Missing
  | Unreadable
  | Undecodable
  | Unparseable
  | Snapshot cache
  | EmptyNonDict
  | Misshapen exn

text \<open>
  What \<^verbatim>\<open>load_cache\<close> binds the global to when it returns: a dict, or the empty list or
  string that \<^verbatim>\<open>json.load\<close> returned. The other operations are modelled on a dict.
\<close>

datatype loaded = Dict cache | NotDict

text \<open>The module \<^verbatim>\<open>utils\<close>, not part of the sources at hand: parameters.\<close>

record utils =
  parse_dns_response :: "bytes \<Rightarrow> exn + (string \<times> nat \<times> nat)"
  extract_records :: "bytes \<Rightarrow> exn + rr list"
  build_dns_response :: "nat \<Rightarrow> bytes \<Rightarrow> entry list \<Rightarrow> string \<Rightarrow> nat \<Rightarrow> exn + bytes"

text \<open>What the upstream socket does for one request (lines 79-83).\<close>

datatype upstream_outcome =
    SendFailed
  | RecvTimedOut
  | RecvFailed
  | Replied bytes

text \<open>
  What one run of the handler reads from outside: the clock at line 62, the upstream
  socket, and the clock at line 96 in each iteration of the insert loop.
\<close>

record env =
  req_now :: real
  req_upstream :: upstream_outcome
  req_clk :: "nat \<Rightarrow> real"

subsection \<open>Persistence\<close>

text \<open>Lines 39-42. The file is opened and written inside the \<^verbatim>\<open>with cache_lock\<close> block.\<close>

definition save_cache :: "cache \<Rightarrow> event list \<times> snapshot_file" where
  "save_cache c =
     ([LockAcquire, FileOpen CACHE_FILE ''w'', CacheAccess, JsonDump c, LockRelease],
      Snapshot c)"

text \<open>
  Lines 18-36, with \<open>now\<close> the clock at line 23. Only \<^verbatim>\<open>FileNotFoundError\<close> and
  \<^verbatim>\<open>JSONDecodeError\<close> are caught (lines 31 and 34); anything else leaves the function as
  an exception, which nothing catches at line 106.
\<close>

definition load_cache :: "real \<Rightarrow> snapshot_file \<Rightarrow> event list \<times> (exn + loaded)" where
  "load_cache now f =
     (case f of
        Missing \<Rightarrow>
          ([FileOpen CACHE_FILE ''r'', Print INFO_not_found, CacheAccess], Inr (Dict []))
      | Unreadable \<Rightarrow> ([FileOpen CACHE_FILE ''r''], Inl OSError)
      | Undecodable \<Rightarrow> ([FileOpen CACHE_FILE ''r'', JsonLoad], Inl UnicodeDecodeError)
      | Unparseable \<Rightarrow>
          ([FileOpen CACHE_FILE ''r'', JsonLoad, Print WARNING_corrupt, CacheAccess],
           Inr (Dict []))
      | Snapshot raw \<Rightarrow>
          (case expire now raw of
             Inl ex \<Rightarrow> ([FileOpen CACHE_FILE ''r'', JsonLoad, LockAcquire, LockRelease], Inl ex)
           | Inr c \<Rightarrow>
               ([FileOpen CACHE_FILE ''r'', JsonLoad, LockAcquire, CacheAccess, LockRelease,
                 CacheLen, Print (INFO_loaded (length c))], Inr (Dict c)))
      | EmptyNonDict \<Rightarrow>
          ([FileOpen CACHE_FILE ''r'', JsonLoad, LockAcquire, CacheAccess, LockRelease,
            CacheLen, Print (INFO_loaded 0)], Inr NotDict)
      | Misshapen ex \<Rightarrow>
          ([FileOpen CACHE_FILE ''r'', JsonLoad, LockAcquire, LockRelease], Inl ex))"

text \<open>
  Lines 47-55, one iteration of the \<^verbatim>\<open>while True\<close> loop of \<^verbatim>\<open>cleanup_cache\<close>, with
  \<open>now\<close> the clock at line 48. An exception ends the loop and the thread.
\<close>

definition cleanup_cache_iteration :: "real \<Rightarrow> cache \<Rightarrow> event list \<times> (exn + cache \<times> snapshot_file)" where
  "cleanup_cache_iteration now c =
     (case expire now c of
        Inl ex \<Rightarrow> ([Sleep 60, LockAcquire, CacheAccess, LockRelease], Inl ex)
      | Inr c1 \<Rightarrow>
          ([Sleep 60, LockAcquire, CacheAccess] @ map (\<lambda>_. CacheAccess) c @ [LockRelease]
             @ fst (save_cache c1) @ [CacheLen, Print (INFO_cleaned (length c1))],
           Inr (c1, snd (save_cache c1))))"

subsection \<open>The request handler\<close>

text \<open>
  Lines 76-97, after the lookup found nothing live. Every exception reaches the handler
  of line 99, which prints and returns.
\<close>

definition forward_upstream ::
  "utils \<Rightarrow> env \<Rightarrow> bytes \<Rightarrow> addr \<Rightarrow> string \<Rightarrow> nat \<Rightarrow> cache \<Rightarrow> event list \<times> cache" where
  "forward_upstream u e pkt addr query_name query_type c =
     (let sent = [Print (CACHE_MISS query_name query_type), SocketOpen, SetTimeout 5,
                  UpstreamSendTo pkt (UPSTREAM_DNS, 53)]
      in case req_upstream e of
           SendFailed \<Rightarrow> (sent @ [Print (ERROR OSError pkt)], c)
         | RecvTimedOut \<Rightarrow>
             (sent @ [UpstreamRecvFrom BUFFER_SIZE, Print (ERROR SocketTimeout pkt)], c)
         | RecvFailed \<Rightarrow> (sent @ [UpstreamRecvFrom BUFFER_SIZE, Print (ERROR OSError pkt)], c)
         | Replied response \<Rightarrow>
             (case extract_records u response of
                Inl ex \<Rightarrow>
                  (sent @ [UpstreamRecvFrom BUFFER_SIZE, SendTo response addr,
                           Print (ERROR ex pkt)], c)
              | Inr records \<Rightarrow>
                  (sent @ [UpstreamRecvFrom BUFFER_SIZE, SendTo response addr, LockAcquire]
                     @ map (\<lambda>_. CacheAccess) records @ [LockRelease],
                   insert_records (req_clk e) 0 records c)))"

text \<open>
  Lines 58-102. On a hit the response is built and sent inside the \<^verbatim>\<open>with cache_lock\<close>
  block, which \<^verbatim>\<open>return\<close> (or an exception of \<^verbatim>\<open>build_dns_response\<close>) then leaves.
\<close>

definition handle_request ::
  "utils \<Rightarrow> env \<Rightarrow> bytes \<Rightarrow> addr \<Rightarrow> cache \<Rightarrow> event list \<times> cache" where
  "handle_request u e pkt addr c =
     (case parse_dns_response u pkt of
        Inl ex \<Rightarrow> ([Print (ERROR ex pkt)], c)
      | Inr (query_name, query_type, tid) \<Rightarrow>
          (let key = cache_key query_type query_name;
               valid_records = fst (cache_lookup (req_now e) key c);
               c1 = snd (cache_lookup (req_now e) key c)
           in if valid_records \<noteq> [] then
                (case build_dns_response u tid pkt valid_records query_name query_type of
                   Inl ex \<Rightarrow>
                     ([LockAcquire, CacheAccess, Print (CACHE_HIT query_name query_type),
                       LockRelease, Print (ERROR ex pkt)], c1)
                 | Inr response \<Rightarrow>
                     ([LockAcquire, CacheAccess, Print (CACHE_HIT query_name query_type),
                       SendTo response addr, LockRelease], c1))
              else
                (let looked = [LockAcquire, CacheAccess, CacheAccess]
                       @ (if key \<in> set (map fst c) then [CacheAccess] else [])
                       @ [LockRelease];
                     fwd = forward_upstream u e pkt addr query_name query_type c1
                 in (looked @ fst fwd, snd fwd))))"

text \<open>
  Lines 114-116, for the packets the socket delivers, each with what its handler reads
  from outside. Each handler runs in a thread of its own, whose exceptions end at line
  99; here the handlers run one after the other in the order of arrival.
\<close>

fun serve :: "utils \<Rightarrow> (env \<times> bytes \<times> addr) list \<Rightarrow> cache \<Rightarrow> event list \<times> cache" where
  "serve u [] c = ([], c)"
| "serve u ((e, pkt, addr) # rest) c =
     (let h = handle_request u e pkt addr c;
          r = serve u rest (snd h)
      in (fst h @ fst r, snd r))"

subsection \<open>Lock scope\<close>

text \<open>Socket sends and receives and file operations.\<close>

fun io_event :: "event \<Rightarrow> bool" where
  "io_event (SendTo _ _) = True"
| "io_event (UpstreamSendTo _ _) = True"
| "io_event (UpstreamRecvFrom _) = True"
| "io_event (FileOpen _ _) = True"
| "io_event JsonLoad = True"
| "io_event (JsonDump _) = True"
| "io_event _ = False"

text \<open>Some I/O event of the trace happens while the lock is held.\<close>

fun lock_spans_io :: "bool \<Rightarrow> event list \<Rightarrow> bool" where
  "lock_spans_io held [] = False"
| "lock_spans_io held (LockAcquire # es) = lock_spans_io True es"
| "lock_spans_io held (LockRelease # es) = lock_spans_io False es"
| "lock_spans_io held (ev # es) = ((held \<and> io_event ev) \<or> lock_spans_io held es)"

text \<open>Some access to the cache happens while the lock is not held.\<close>

fun unlocked_access :: "bool \<Rightarrow> event list \<Rightarrow> bool" where
  "unlocked_access held [] = False"
| "unlocked_access held (LockAcquire # es) = unlocked_access True es"
| "unlocked_access held (LockRelease # es) = unlocked_access False es"
| "unlocked_access held (CacheAccess # es) = (\<not> held \<or> unlocked_access held es)"
| "unlocked_access held (ev # es) = unlocked_access held es"

subsection \<open>The query decoder\<close>

text \<open>
  Modelled from the spec: \<^verbatim>\<open>parse_dns_response\<close> of the module \<^verbatim>\<open>utils\<close>, which is not
  among the sources. The description of the query decoder: a fixed 12-byte header
  (transaction id, flags, four 16-bit counts), then the question: length-prefixed labels
  ended by a zero-length label, a 16-bit type and a 16-bit class, all big-endian. The
  result is the dotted name, the type code and the transaction id. Decoding fails on
  truncated input, on a label length that runs past the end of the buffer, and on a
  missing zero label.
\<close>

function read_labels :: "bytes \<Rightarrow> (string list \<times> bytes) option" where
  "read_labels [] = None"
| "read_labels (n # bs) =
     (if n = 0 then Some ([], bs)
      else if length bs < n then None
      else (case read_labels (drop n bs) of
              None \<Rightarrow> None
            | Some (labels, rest) \<Rightarrow> Some (map char_of (take n bs) # labels, rest)))"
  by pat_completeness auto
termination
  by (relation "measure length") auto

text \<open>Modelled from the spec: the dotted name, the labels joined by dots.\<close>

fun dotted :: "string list \<Rightarrow> string" where
  "dotted [] = []"
| "dotted [l] = l"
| "dotted (l # ls) = l @ ''.'' @ dotted ls"

text \<open>Modelled from the spec: a big-endian 16-bit field.\<close>

definition be16 :: "nat \<Rightarrow> nat \<Rightarrow> nat" where
  "be16 hi lo = hi * 256 + lo"

text \<open>
  Modelled from the spec: the decoder of a query, header first, then the name, the type
  and the class of the first question.
\<close>

definition decodeQuery :: "bytes \<Rightarrow> exn + (string \<times> nat \<times> nat)" where
  "decodeQuery bs =
     (if length bs < 12 then Inl (UtilsError ''truncated header'')
      else (case read_labels (drop 12 bs) of
              None \<Rightarrow> Inl (UtilsError ''bad question name'')
            | Some (labels, rest) \<Rightarrow>
                if length rest < 4 then Inl (UtilsError ''truncated question'')
                else Inr (dotted labels, be16 (rest ! 0) (rest ! 1), be16 (bs ! 0) (bs ! 1))))"

subsection \<open>What a pass over all keys leaves\<close>

text \<open>
  The map a sweep is meant to leave, in the words of its description: every key's
  sequence filtered to its live entries, and the keys whose filtered sequence is empty
  removed. The loop of the source is compared with it below.
\<close>

definition swept :: "real \<Rightarrow> cache \<Rightarrow> cache" where
  "swept now c =
     filter (\<lambda>(k, rs). rs \<noteq> []) (map (\<lambda>(k, rs). (k, filter (live now) rs)) c)"

section \<open>Properties\<close>

subsection \<open>The loop over the keys\<close>

lemma map_of_mid: "k \<notin> fst ` set pre \<Longrightarrow> map_of (pre @ (k, v) # suf) k = Some v"
  by (induction pre) auto

lemma update_mid:
  "k \<notin> fst ` set pre \<Longrightarrow> AList.update k w (pre @ (k, v) # suf) = pre @ (k, w) # suf"
  by (induction pre) auto

lemma delete_mid:
  "k \<notin> fst ` set pre \<Longrightarrow> k \<notin> fst ` set suf \<Longrightarrow> AList.delete k (pre @ (k, v) # suf) = pre @ suf"
  by (induction pre) (force simp: AList.delete_eq filter_id_conv)+

lemma expire_keys_split:
  "distinct (map fst (pre @ suf)) \<Longrightarrow>
   expire_keys now (map fst suf) (pre @ suf) = Inr (pre @ swept now suf)"
proof (induction suf arbitrary: pre)
  case Nil
  then show ?case by (simp add: swept_def)
next
  case (Cons p suf)
  obtain k rs where p: "p = (k, rs)" by (cases p)
  from Cons.prems p have nk: "k \<notin> fst ` set pre" and ns: "k \<notin> fst ` set suf"
    and d: "distinct (map fst (pre @ suf))" by auto
  show ?case
  proof (cases "filter (live now) rs = []")
    case True
    have "expire_keys now (map fst (p # suf)) (pre @ p # suf) =
          expire_keys now (map fst suf) (pre @ suf)"
      using True nk ns by (simp add: p map_of_mid update_mid delete_mid del: map_of_append)
    with Cons.IH [OF d] True show ?thesis
      by (simp add: p swept_def)
  next
    case False
    from Cons.prems p have "distinct (map fst ((pre @ [(k, filter (live now) rs)]) @ suf))" by auto
    moreover have "expire_keys now (map fst (p # suf)) (pre @ p # suf) =
          expire_keys now (map fst suf) ((pre @ [(k, filter (live now) rs)]) @ suf)"
      using False nk by (simp add: p map_of_mid update_mid del: map_of_append)
    ultimately show ?thesis using Cons.IH [of "pre @ [(k, filter (live now) rs)]"] False
      by (simp add: p swept_def)
  qed
qed

lemma expire_swept: "distinct (map fst c) \<Longrightarrow> expire now c = Inr (swept now c)"
  using expire_keys_split [of "[]" c now] by (simp add: expire_def)


lemma keys_swept: "fst ` set (swept now c) \<subseteq> fst ` set c"
  by (force simp: swept_def)

lemma distinct_swept: "distinct (map fst c) \<Longrightarrow> distinct (map fst (swept now c))"
  by (induction c) (force simp: swept_def)+

lemma map_of_swept_absent: "k \<notin> fst ` set c \<Longrightarrow> map_of (swept now c) k = None"
  using keys_swept [of now c] by (auto simp: map_of_eq_None_iff)

lemma map_of_swept:
  "distinct (map fst c) \<Longrightarrow>
   map_of (swept now c) k =
     (case map_of c k of
        None \<Rightarrow> None
      | Some rs \<Rightarrow> if filter (live now) rs = [] then None else Some (filter (live now) rs))"
proof (induction c)
  case Nil
  then show ?case by (simp add: swept_def)
next
  case (Cons p c)
  obtain k' rs where p: "p = (k', rs)" by (cases p)
  have sw: "swept now ((k', rs) # c) =
      (if filter (live now) rs = [] then swept now c else (k', filter (live now) rs) # swept now c)"
    by (simp add: swept_def)
  from Cons.prems p have "k' \<notin> fst ` set c" and "distinct (map fst c)" by auto
  with Cons.IH show ?case
    by (simp add: sw p map_of_swept_absent)
qed

lemma set_swept:
  "(k, rs) \<in> set (swept now c) \<Longrightarrow> rs \<noteq> [] \<and> (\<forall>r \<in> set rs. live now r)"
  by (auto simp: swept_def)

lemma swept_id:
  "\<forall>p \<in> set c. snd p \<noteq> [] \<and> (\<forall>r \<in> set (snd p). live now r) \<Longrightarrow> swept now c = c"
proof (induction c)
  case Nil
  then show ?case by (simp add: swept_def)
next
  case (Cons p c)
  then have "swept now c = c" by simp
  moreover from Cons.prems have "filter (live now) (snd p) = snd p" and "snd p \<noteq> []" by auto
  ultimately show ?case by (cases p) (simp add: swept_def)
qed

lemma live_iff: "live now r \<longleftrightarrow> now < timestamp r + real_of_int (ttl r)"
  by (auto simp: live_def)

subsection \<open>Sweep\<close>

text \<open>
  C4. After one iteration of \<^verbatim>\<open>cleanup_cache\<close> at time \<open>T\<close> the loop has not raised, the
  snapshot written is the cache it leaves, no key of that cache maps to an empty
  sequence or to an entry with \<open>T \<ge> timestamp + ttl\<close>, a key whose live entries are none
  is gone, and every other key maps to exactly its live entries.
\<close>

theorem cleanup_leaves_live_entries:
  assumes "distinct (map fst c)"
  shows "\<exists>c'. snd (cleanup_cache_iteration T c) = Inr (c', Snapshot c')
      \<and> (\<forall>k rs. (k, rs) \<in> set c' \<longrightarrow>
            rs \<noteq> [] \<and> (\<forall>r \<in> set rs. \<not> T \<ge> timestamp r + real_of_int (ttl r)))
      \<and> (\<forall>k. map_of c' k =
            (case map_of c k of
               None \<Rightarrow> None
             | Some rs \<Rightarrow>
                 if filter (live T) rs = [] then None else Some (filter (live T) rs)))"
proof -
  have "snd (cleanup_cache_iteration T c) = Inr (swept T c, Snapshot (swept T c))"
    by (simp add: cleanup_cache_iteration_def expire_swept [OF assms] save_cache_def)
  moreover have "\<forall>k rs. (k, rs) \<in> set (swept T c) \<longrightarrow>
      rs \<noteq> [] \<and> (\<forall>r \<in> set rs. \<not> T \<ge> timestamp r + real_of_int (ttl r))"
    using set_swept [of _ _ T c] by (fastforce simp: live_iff)
  ultimately show ?thesis
    using map_of_swept [OF assms, of T] by blast
qed

text \<open>
  At time 100 a key with an expired and a live entry keeps the live one, and a key with
  only an expired entry is deleted.
\<close>

theorem cleanup_leaves_live_entries_witness:
  "distinct (map fst
     [(''1:a'', [\<lparr>name = ''a'', type = 1, data = ''1.2.3.4'', ttl = 5, timestamp = 0\<rparr>,
                \<lparr>name = ''a'', type = 1, data = ''1.2.3.4'', ttl = 300, timestamp = 90\<rparr>]),
      (''1:b'', [\<lparr>name = ''b'', type = 1, data = ''5.6.7.8'', ttl = 5, timestamp = 0\<rparr>])])
   \<and> (\<exists>c'. snd (cleanup_cache_iteration 100
        [(''1:a'', [\<lparr>name = ''a'', type = 1, data = ''1.2.3.4'', ttl = 5, timestamp = 0\<rparr>,
                   \<lparr>name = ''a'', type = 1, data = ''1.2.3.4'', ttl = 300, timestamp = 90\<rparr>]),
         (''1:b'', [\<lparr>name = ''b'', type = 1, data = ''5.6.7.8'', ttl = 5, timestamp = 0\<rparr>])])
        = Inr (c', Snapshot c')
      \<and> c' = [(''1:a'', [\<lparr>name = ''a'', type = 1, data = ''1.2.3.4'', ttl = 300, timestamp = 90\<rparr>])]
      \<and> (\<forall>k rs. (k, rs) \<in> set c' \<longrightarrow>
            rs \<noteq> [] \<and> (\<forall>r \<in> set rs. \<not> 100 \<ge> timestamp r + real_of_int (ttl r))))"
proof -
  let ?c = "[(''1:a'', [\<lparr>name = ''a'', type = 1, data = ''1.2.3.4'', ttl = 5, timestamp = 0\<rparr>,
                \<lparr>name = ''a'', type = 1, data = ''1.2.3.4'', ttl = 300, timestamp = 90\<rparr>]),
      (''1:b'', [\<lparr>name = ''b'', type = 1, data = ''5.6.7.8'', ttl = 5, timestamp = 0\<rparr>])]"
  have d: "distinct (map fst ?c)" by simp
  have ev: "snd (cleanup_cache_iteration 100 ?c) =
      Inr ([(''1:a'', [\<lparr>name = ''a'', type = 1, data = ''1.2.3.4'', ttl = 300, timestamp = 90\<rparr>])],
           Snapshot [(''1:a'', [\<lparr>name = ''a'', type = 1, data = ''1.2.3.4'', ttl = 300, timestamp = 90\<rparr>])])"
    by (simp add: cleanup_cache_iteration_def expire_def live_def save_cache_def)
  from cleanup_leaves_live_entries [OF d, of 100] obtain c' where
    c': "snd (cleanup_cache_iteration 100 ?c) = Inr (c', Snapshot c')"
    and nonempty: "\<forall>k rs. (k, rs) \<in> set c' \<longrightarrow>
            rs \<noteq> [] \<and> (\<forall>r \<in> set rs. \<not> 100 \<ge> timestamp r + real_of_int (ttl r))"
    by blast
  from c' ev have "c' = [(''1:a'', [\<lparr>name = ''a'', type = 1, data = ''1.2.3.4'', ttl = 300, timestamp = 90\<rparr>])]"
    by simp
  with d c' nonempty show ?thesis by blast
qed

subsection \<open>Lookup and insert\<close>

lemma get_default_keys: "key \<notin> fst ` set c \<Longrightarrow> get_default c key = []"
  by (simp add: get_default_def map_of_eq_None_iff [THEN iffD2])


lemma get_default_insert_same:
  "get_default (cache_insert t rec c) (cache_key (type rec) (name rec)) =
     get_default c (cache_key (type rec) (name rec)) @ [mk_entry rec t]"
  by (simp add: cache_insert_def Let_def get_default_def update_conv')


lemma lookup_fst: "fst (cache_lookup now key c) = filter (live now) (get_default c key)"
  by (simp add: cache_lookup_def Let_def)

lemma lookup_snd:
  "snd (cache_lookup now key c) =
     (if filter (live now) (get_default c key) = [] then AList.delete key c else c)"
  by (simp add: cache_lookup_def Let_def)

text \<open>A query for the A record of \<^verbatim>\<open>a\<close> with transaction id 7, and its cache key.\<close>

lemma decode_example:
  "decodeQuery [0, 7, 1, 0, 0, 1, 0, 0, 0, 0, 0, 0, 1, 97, 0, 0, 1, 0, 1] = Inr (''a'', 1, 7)"
  by code_simp

lemma key_a: "cache_key 1 ''a'' = ''1:a''"
  by code_simp

lemma key_example: "cache_key 1 ''example.com'' = ''1:example.com''"
  by code_simp

text \<open>
  C2. A lookup at time \<open>T'\<close> returns exactly the entries of the key with
  \<open>T' - timestamp < ttl\<close>, evaluated at the read; an entry inserted at \<open>T\<close> with ttl
  \<open>D\<close> is returned for \<open>T \<le> T' < T + D\<close> and omitted for \<open>T' \<ge> T + D\<close>; when no entry
  of the key is live the result is empty and the key is no longer in the map. On a hit
  the handler builds its response from exactly that result.
\<close>

theorem lookup_returns_live_entries:
  "fst (cache_lookup T' key c) = filter (live T') (get_default c key)
   \<and> (\<forall>r \<in> set (get_default c key).
         r \<in> set (fst (cache_lookup T' key c)) \<longleftrightarrow> T' < timestamp r + real_of_int (ttl r))
   \<and> (T \<le> T' \<and> T' < T + real_of_int (ttl rec) \<longrightarrow>
         mk_entry rec T \<in> set (fst (cache_lookup T' (cache_key (type rec) (name rec))
                                     (cache_insert T rec c))))
   \<and> (T + real_of_int (ttl rec) \<le> T' \<longrightarrow>
         mk_entry rec T \<notin> set (fst (cache_lookup T' (cache_key (type rec) (name rec))
                                     (cache_insert T rec c))))
   \<and> (filter (live T') (get_default c key) = [] \<longrightarrow>
         fst (cache_lookup T' key c) = []
         \<and> snd (cache_lookup T' key c) = AList.delete key c
         \<and> map_of (snd (cache_lookup T' key c)) key = None)
   \<and> (parse_dns_response u pkt = Inr (qn, qt, tid)
        \<and> filter (live (req_now e)) (get_default c (cache_key qt qn)) \<noteq> []
        \<and> build_dns_response u tid pkt
              (filter (live (req_now e)) (get_default c (cache_key qt qn))) qn qt = Inr response \<longrightarrow>
      fst (handle_request u e pkt addr c) =
        [LockAcquire, CacheAccess, Print (CACHE_HIT qn qt), SendTo response addr, LockRelease])"
proof (intro conjI)
  show "parse_dns_response u pkt = Inr (qn, qt, tid)
        \<and> filter (live (req_now e)) (get_default c (cache_key qt qn)) \<noteq> []
        \<and> build_dns_response u tid pkt
              (filter (live (req_now e)) (get_default c (cache_key qt qn))) qn qt = Inr response \<longrightarrow>
      fst (handle_request u e pkt addr c) =
        [LockAcquire, CacheAccess, Print (CACHE_HIT qn qt), SendTo response addr, LockRelease]"
    by (simp add: handle_request_def lookup_fst Let_def)
  show "fst (cache_lookup T' key c) = filter (live T') (get_default c key)"
    by (rule lookup_fst)
  show "\<forall>r \<in> set (get_default c key).
         r \<in> set (fst (cache_lookup T' key c)) \<longleftrightarrow> T' < timestamp r + real_of_int (ttl r)"
    by (simp add: lookup_fst live_iff)
  show "T \<le> T' \<and> T' < T + real_of_int (ttl rec) \<longrightarrow>
         mk_entry rec T \<in> set (fst (cache_lookup T' (cache_key (type rec) (name rec))
                                     (cache_insert T rec c)))"
    by (simp add: lookup_fst get_default_insert_same live_iff mk_entry_def)
  show "T + real_of_int (ttl rec) \<le> T' \<longrightarrow>
         mk_entry rec T \<notin> set (fst (cache_lookup T' (cache_key (type rec) (name rec))
                                     (cache_insert T rec c)))"
    by (simp add: lookup_fst live_iff mk_entry_def)
  show "filter (live T') (get_default c key) = [] \<longrightarrow>
         fst (cache_lookup T' key c) = []
         \<and> snd (cache_lookup T' key c) = AList.delete key c
         \<and> map_of (snd (cache_lookup T' key c)) key = None"
    by (simp add: lookup_fst lookup_snd delete_conv')
qed

text \<open>
  An A record for \<^verbatim>\<open>example.com\<close> with ttl 300 inserted at time 0 is returned at time 10
  and answers the query; at time 300 the lookup returns nothing and deletes the key.
\<close>

theorem lookup_returns_live_entries_witness:
  "(0::real) \<le> 10
   \<and> 10 < 0 + real_of_int (ttl \<lparr>name = ''example.com'', type = 1, data = ''1.2.3.4'', ttl = 300\<rparr>)
   \<and> fst (cache_lookup 10 ''1:example.com''
        (cache_insert 0 \<lparr>name = ''example.com'', type = 1, data = ''1.2.3.4'', ttl = 300\<rparr> []))
      = [\<lparr>name = ''example.com'', type = 1, data = ''1.2.3.4'', ttl = 300, timestamp = 0\<rparr>]
   \<and> 0 + real_of_int (ttl \<lparr>name = ''example.com'', type = 1, data = ''1.2.3.4'', ttl = 300\<rparr>) \<le> 300
   \<and> fst (cache_lookup 300 ''1:example.com''
        (cache_insert 0 \<lparr>name = ''example.com'', type = 1, data = ''1.2.3.4'', ttl = 300\<rparr> [])) = []
   \<and> snd (cache_lookup 300 ''1:example.com''
        (cache_insert 0 \<lparr>name = ''example.com'', type = 1, data = ''1.2.3.4'', ttl = 300\<rparr> [])) = []
   \<and> fst (handle_request
        \<lparr>parse_dns_response = (\<lambda>_. Inr (''example.com'', 1, 7)),
         extract_records = (\<lambda>_. Inr []),
         build_dns_response = (\<lambda>tid pkt recs qn qt. Inr [tid, length recs])\<rparr>
        \<lparr>req_now = 10, req_upstream = RecvTimedOut, req_clk = (\<lambda>_. 0)\<rparr>
        [0, 7] (''10.0.0.1'', 4000)
        (cache_insert 0 \<lparr>name = ''example.com'', type = 1, data = ''1.2.3.4'', ttl = 300\<rparr> []))
      = [LockAcquire, CacheAccess, Print (CACHE_HIT ''example.com'' 1),
         SendTo [7, 1] (''10.0.0.1'', 4000), LockRelease]"
proof -
  let ?rec = "\<lparr>name = ''example.com'', type = 1, data = ''1.2.3.4'', ttl = 300\<rparr>"
  let ?u = "\<lparr>parse_dns_response = (\<lambda>_. Inr (''example.com'', 1::nat, 7::nat)),
         extract_records = (\<lambda>_. Inr []),
         build_dns_response = (\<lambda>tid pkt recs qn qt. Inr [tid, length recs])\<rparr>"
  let ?e = "\<lparr>req_now = 10, req_upstream = RecvTimedOut, req_clk = (\<lambda>_. 0)\<rparr>"
  have k: "cache_key (type ?rec) (name ?rec) = ''1:example.com''"
    using key_example by simp
  have c1: "cache_insert 0 ?rec [] =
      [(''1:example.com'', [\<lparr>name = ''example.com'', type = 1, data = ''1.2.3.4'', ttl = 300, timestamp = 0\<rparr>])]"
    using k by (simp add: cache_insert_def Let_def get_default_def mk_entry_def)
  have early: "(0::real) \<le> 10 \<and> 10 < 0 + real_of_int (ttl ?rec)" by simp
  have late: "0 + real_of_int (ttl ?rec) \<le> (300::real)" by simp
  note at10 = lookup_returns_live_entries [where T' = 10 and T = 0 and rec = ?rec and c = "[]" and key = "''1:example.com''"
      and u = ?u and e = ?e and pkt = "[0, 7]" and addr = "(''10.0.0.1'', 4000)"
      and qn = "''example.com''" and qt = 1 and tid = 7 and response = "[7, 1]"]
  note at300 = lookup_returns_live_entries [where T' = 300 and T = 0 and rec = ?rec and c = "cache_insert 0 ?rec []"
      and key = "''1:example.com''"]
  note hit = lookup_returns_live_entries [where c = "cache_insert 0 ?rec []" and u = ?u and e = ?e and pkt = "[0, 7]"
      and addr = "(''10.0.0.1'', 4000)" and qn = "''example.com''" and qt = 1 and tid = 7
      and response = "[7, 1]"]
  have r10: "fst (cache_lookup 10 ''1:example.com'' (cache_insert 0 ?rec [])) =
      [\<lparr>name = ''example.com'', type = 1, data = ''1.2.3.4'', ttl = 300, timestamp = 0\<rparr>]"
    using at10 by (simp add: lookup_fst c1 [simplified] get_default_def live_def)
  have r300: "fst (cache_lookup 300 ''1:example.com'' (cache_insert 0 ?rec [])) = []
      \<and> snd (cache_lookup 300 ''1:example.com'' (cache_insert 0 ?rec [])) = []"
    using at300 by (simp add: c1 [simplified] get_default_def live_def)
  have h: "fst (handle_request ?u ?e [0, 7] (''10.0.0.1'', 4000) (cache_insert 0 ?rec [])) =
      [LockAcquire, CacheAccess, Print (CACHE_HIT ''example.com'' 1),
         SendTo [7, 1] (''10.0.0.1'', 4000), LockRelease]"
    using hit key_example by (simp add: c1 [simplified] get_default_def live_def)
  from early late r10 r300 h show ?thesis by simp
qed

text \<open>
  C10. A lookup that finds a live entry leaves the stored map as it is, expired entries
  of the same key included; the one mutation a lookup performs is the deletion of the
  whole key when none of its entries is live. The handler on a hit returns the map it
  was given.
\<close>

theorem hit_leaves_cache_unchanged:
  "(fst (cache_lookup now key c) \<noteq> [] \<longrightarrow> snd (cache_lookup now key c) = c)
   \<and> snd (cache_lookup now key c) =
        (if fst (cache_lookup now key c) = [] then AList.delete key c else c)
   \<and> (parse_dns_response u pkt = Inr (qn, qt, tid)
        \<and> fst (cache_lookup (req_now e) (cache_key qt qn) c) \<noteq> [] \<longrightarrow>
      snd (handle_request u e pkt addr c) = c)"
  by (simp add: lookup_fst lookup_snd handle_request_def Let_def split: sum.splits)

text \<open>
  At time 100 a key holds an entry that expired at 5 and a live one: the lookup returns
  the live one and the map still holds both, also after the handler has answered a
  query for that key.
\<close>

theorem hit_leaves_cache_unchanged_witness:
  "fst (cache_lookup 100 ''1:a''
     [(''1:a'', [\<lparr>name = ''a'', type = 1, data = ''1.2.3.4'', ttl = 5, timestamp = 0\<rparr>,
                \<lparr>name = ''a'', type = 1, data = ''1.2.3.4'', ttl = 300, timestamp = 90\<rparr>])])
     = [\<lparr>name = ''a'', type = 1, data = ''1.2.3.4'', ttl = 300, timestamp = 90\<rparr>]
   \<and> snd (cache_lookup 100 ''1:a''
     [(''1:a'', [\<lparr>name = ''a'', type = 1, data = ''1.2.3.4'', ttl = 5, timestamp = 0\<rparr>,
                \<lparr>name = ''a'', type = 1, data = ''1.2.3.4'', ttl = 300, timestamp = 90\<rparr>])])
     = [(''1:a'', [\<lparr>name = ''a'', type = 1, data = ''1.2.3.4'', ttl = 5, timestamp = 0\<rparr>,
                  \<lparr>name = ''a'', type = 1, data = ''1.2.3.4'', ttl = 300, timestamp = 90\<rparr>])]
   \<and> snd (handle_request
        \<lparr>parse_dns_response = decodeQuery, extract_records = (\<lambda>_. Inr []),
         build_dns_response = (\<lambda>tid pkt recs qn qt. Inr [tid, length recs])\<rparr>
        \<lparr>req_now = 100, req_upstream = RecvTimedOut, req_clk = (\<lambda>_. 100)\<rparr>
        [0, 7, 1, 0, 0, 1, 0, 0, 0, 0, 0, 0, 1, 97, 0, 0, 1, 0, 1] (''10.0.0.1'', 4000)
        [(''1:a'', [\<lparr>name = ''a'', type = 1, data = ''1.2.3.4'', ttl = 5, timestamp = 0\<rparr>,
                   \<lparr>name = ''a'', type = 1, data = ''1.2.3.4'', ttl = 300, timestamp = 90\<rparr>])])
     = [(''1:a'', [\<lparr>name = ''a'', type = 1, data = ''1.2.3.4'', ttl = 5, timestamp = 0\<rparr>,
                  \<lparr>name = ''a'', type = 1, data = ''1.2.3.4'', ttl = 300, timestamp = 90\<rparr>])]"
proof -
  let ?c = "[(''1:a'', [\<lparr>name = ''a'', type = 1, data = ''1.2.3.4'', ttl = 5, timestamp = 0\<rparr>,
                \<lparr>name = ''a'', type = 1, data = ''1.2.3.4'', ttl = 300, timestamp = 90\<rparr>])]"
  let ?u = "\<lparr>parse_dns_response = decodeQuery, extract_records = (\<lambda>_. Inr []),
      build_dns_response = (\<lambda>tid pkt recs qn qt. Inr [tid, length recs])\<rparr>"
  let ?e = "\<lparr>req_now = 100, req_upstream = RecvTimedOut, req_clk = (\<lambda>_. 100)\<rparr>"
  let ?pkt = "[0, 7, 1, 0, 0, 1, 0, 0, 0, 0, 0, 0, 1, 97, 0, 0, 1, 0, 1::nat]"
  have r: "fst (cache_lookup 100 ''1:a'' ?c) =
      [\<lparr>name = ''a'', type = 1, data = ''1.2.3.4'', ttl = 300, timestamp = 90\<rparr>]"
    by (simp add: cache_lookup_def Let_def get_default_def live_def)
  then have ne: "fst (cache_lookup 100 ''1:a'' ?c) \<noteq> []" by simp
  with hit_leaves_cache_unchanged [where now = 100 and key = "''1:a''" and c = ?c]
  have s: "snd (cache_lookup 100 ''1:a'' ?c) = ?c" by blast
  have p: "parse_dns_response ?u ?pkt = Inr (''a'', 1, 7)"
    using decode_example by simp
  from ne key_a have "fst (cache_lookup (req_now ?e) (cache_key 1 ''a'') ?c) \<noteq> []" by simp
  with hit_leaves_cache_unchanged [where u = ?u and e = ?e and pkt = ?pkt and c = ?c
      and qn = "''a''" and qt = 1 and tid = 7 and addr = "(''10.0.0.1'', 4000)"] p
  have h: "snd (handle_request ?u ?e ?pkt (''10.0.0.1'', 4000) ?c) = ?c" by blast
  from r s h show ?thesis by simp
qed




subsection \<open>Load and persist\<close>

lemma load_snapshot:
  "distinct (map fst raw) \<Longrightarrow> snd (load_cache now (Snapshot raw)) = Inr (Dict (swept now raw))"
  by (simp add: load_cache_def expire_swept)




text \<open>
  C3, as stated, fails: a map holding one entry with ttl 5 stamped 0, persisted and
  loaded at time 100 with no time in between, comes back empty, although the ttl of the
  entry is not 0.
\<close>

theorem persist_then_load_counterexample:
  "ttl \<lparr>name = ''a'', type = 1, data = ''1.2.3.4'', ttl = 5, timestamp = 0\<rparr> \<noteq> 0
   \<and> snd (load_cache 100 (snd (save_cache
        [(''1:a'', [\<lparr>name = ''a'', type = 1, data = ''1.2.3.4'', ttl = 5, timestamp = 0\<rparr>])])))
      = Inr (Dict [])
   \<and> snd (load_cache 100 (snd (save_cache
        [(''1:a'', [\<lparr>name = ''a'', type = 1, data = ''1.2.3.4'', ttl = 5, timestamp = 0\<rparr>])])))
      \<noteq> Inr (Dict [(''1:a'', [\<lparr>name = ''a'', type = 1, data = ''1.2.3.4'', ttl = 5, timestamp = 0\<rparr>])])"
  by (simp add: save_cache_def load_cache_def expire_def live_def)

text \<open>
  C3, amended. \<^verbatim>\<open>save_cache\<close> writes the map as it is, without filtering. Loading what
  was just written, at time \<open>now\<close>, gives the persisted map without the entries that are
  not live at \<open>now\<close> and without the keys left empty; it gives the persisted map itself
  when every entry is live at \<open>now\<close> and no key has an empty sequence. An entry with ttl 0
  stamped at or before \<open>now\<close> is never live.
\<close>

theorem persist_then_load:
  assumes "distinct (map fst c)"
  shows "snd (save_cache c) = Snapshot c
   \<and> JsonDump c \<in> set (fst (save_cache c))
   \<and> (\<exists>c'. snd (load_cache now (snd (save_cache c))) = Inr (Dict c')
         \<and> (\<forall>k. map_of c' k =
               (case map_of c k of
                  None \<Rightarrow> None
                | Some rs \<Rightarrow>
                    if filter (live now) rs = [] then None
                    else Some (filter (live now) rs))))
   \<and> ((\<forall>p \<in> set c. snd p \<noteq> [] \<and> (\<forall>r \<in> set (snd p). now - timestamp r < real_of_int (ttl r))) \<longrightarrow>
        snd (load_cache now (snd (save_cache c))) = Inr (Dict c))
   \<and> (\<forall>r. ttl r = 0 \<and> timestamp r \<le> now \<longrightarrow> \<not> live now r)"
proof (intro conjI)
  show "snd (save_cache c) = Snapshot c" by (simp add: save_cache_def)
  show "JsonDump c \<in> set (fst (save_cache c))" by (simp add: save_cache_def)
  have l: "snd (load_cache now (snd (save_cache c))) = Inr (Dict (swept now c))"
    using load_snapshot [OF assms] by (simp add: save_cache_def)
  with map_of_swept [OF assms, of now]
  show "\<exists>c'. snd (load_cache now (snd (save_cache c))) = Inr (Dict c')
         \<and> (\<forall>k. map_of c' k =
               (case map_of c k of
                  None \<Rightarrow> None
                | Some rs \<Rightarrow>
                    if filter (live now) rs = [] then None
                    else Some (filter (live now) rs)))"
    by blast
  show "(\<forall>p \<in> set c. snd p \<noteq> [] \<and> (\<forall>r \<in> set (snd p). now - timestamp r < real_of_int (ttl r))) \<longrightarrow>
        snd (load_cache now (snd (save_cache c))) = Inr (Dict c)"
    using swept_id [of c now] by (simp add: l live_def)
  show "\<forall>r. ttl r = 0 \<and> timestamp r \<le> now \<longrightarrow> \<not> live now r"
    by (simp add: live_def)
qed

text \<open>A map whose one entry is live at time 100 comes back as it was persisted.\<close>

theorem persist_then_load_witness:
  "distinct (map fst
     [(''1:a'', [\<lparr>name = ''a'', type = 1, data = ''1.2.3.4'', ttl = 300, timestamp = 90\<rparr>])])
   \<and> 100 - timestamp \<lparr>name = ''a'', type = 1, data = ''1.2.3.4'', ttl = 300, timestamp = 90\<rparr>
       < real_of_int (ttl \<lparr>name = ''a'', type = 1, data = ''1.2.3.4'', ttl = 300, timestamp = 90\<rparr>)
   \<and> snd (load_cache 100 (snd (save_cache
        [(''1:a'', [\<lparr>name = ''a'', type = 1, data = ''1.2.3.4'', ttl = 300, timestamp = 90\<rparr>])])))
      = Inr (Dict [(''1:a'', [\<lparr>name = ''a'', type = 1, data = ''1.2.3.4'', ttl = 300, timestamp = 90\<rparr>])])"
proof -
  let ?c = "[(''1:a'', [\<lparr>name = ''a'', type = 1, data = ''1.2.3.4'', ttl = 300, timestamp = 90\<rparr>])]"
  have d: "distinct (map fst ?c)" by simp
  have l: "\<forall>p \<in> set ?c. snd p \<noteq> [] \<and> (\<forall>r \<in> set (snd p). 100 - timestamp r < real_of_int (ttl r))"
    by simp
  from persist_then_load [OF d, of 100] l
  have "snd (load_cache 100 (snd (save_cache ?c))) = Inr (Dict ?c)" by blast
  with d show ?thesis by simp
qed

subsection \<open>The handler\<close>



lemma miss_result:
  assumes "parse_dns_response u pkt = Inr (qn, qt, tid)"
    and "filter (live (req_now e)) (get_default c (cache_key qt qn)) = []"
  shows "handle_request u e pkt addr c =
     (([LockAcquire, CacheAccess, CacheAccess]
         @ (if cache_key qt qn \<in> set (map fst c) then [CacheAccess] else [])
         @ [LockRelease])
        @ fst (forward_upstream u e pkt addr qn qt (AList.delete (cache_key qt qn) c)),
      snd (forward_upstream u e pkt addr qn qt (AList.delete (cache_key qt qn) c)))"
  using assms by (simp add: handle_request_def lookup_fst lookup_snd Let_def)

text \<open>
  C5. When decoding the query raises, the handler prints the error and does nothing
  else: it sends nothing, takes no lock and returns the cache it was given; the packets
  that follow are served as if the malformed one had not arrived. With the decoder of
  the description, every packet shorter than 12 bytes is such a packet.
\<close>

theorem malformed_query_dropped:
  "(parse_dns_response u pkt = Inl ex \<longrightarrow>
      handle_request u e pkt addr c = ([Print (ERROR ex pkt)], c)
      \<and> serve u ((e, pkt, addr) # rest) c =
          (Print (ERROR ex pkt) # fst (serve u rest c), snd (serve u rest c)))
   \<and> (length pkt < 12 \<longrightarrow>
        (\<exists>ex. handle_request (u\<lparr>parse_dns_response := decodeQuery\<rparr>) e pkt addr c =
           ([Print (ERROR ex pkt)], c)))"
  by (simp add: handle_request_def decodeQuery_def Let_def)

text \<open>
  A packet of five bytes fails to decode; serving it prints one error line and leaves
  the cache as it was.
\<close>

theorem malformed_query_dropped_witness:
  "length [0, 7, 1, 0, 0::nat] < 12
   \<and> decodeQuery [0, 7, 1, 0, 0] = Inl (UtilsError ''truncated header'')
   \<and> serve \<lparr>parse_dns_response = decodeQuery, extract_records = (\<lambda>_. Inr []),
             build_dns_response = (\<lambda>tid pkt recs qn qt. Inr [tid, length recs])\<rparr>
        [(\<lparr>req_now = 10, req_upstream = RecvTimedOut, req_clk = (\<lambda>_. 0)\<rparr>,
          [0, 7, 1, 0, 0], (''10.0.0.1'', 4000))]
        [(''1:a'', [\<lparr>name = ''a'', type = 1, data = ''1.2.3.4'', ttl = 300, timestamp = 0\<rparr>])]
      = ([Print (ERROR (UtilsError ''truncated header'') [0, 7, 1, 0, 0])],
         [(''1:a'', [\<lparr>name = ''a'', type = 1, data = ''1.2.3.4'', ttl = 300, timestamp = 0\<rparr>])])"
proof -
  let ?u = "\<lparr>parse_dns_response = decodeQuery, extract_records = (\<lambda>_. Inr []),
             build_dns_response = (\<lambda>tid pkt recs qn qt. Inr [tid, length recs])\<rparr>"
  have short: "length [0, 7, 1, 0, 0::nat] < 12" by simp
  have fails: "decodeQuery [0, 7, 1, 0, 0] = Inl (UtilsError ''truncated header'')"
    by (simp add: decodeQuery_def)
  then have "parse_dns_response ?u [0, 7, 1, 0, 0] = Inl (UtilsError ''truncated header'')"
    by simp
  from malformed_query_dropped [where u = ?u and pkt = "[0, 7, 1, 0, 0]" and ex = "UtilsError ''truncated header''"
      and rest = "[]", THEN conjunct1, rule_format, OF this]
  show ?thesis using short fails by simp
qed




text \<open>
  C7, as stated, fails: the key of the query holds one entry that expired at time 5; at
  time 100 the lookup deletes the key, then the upstream receive times out, and the
  cache the request leaves is not the cache it found.
\<close>

theorem upstream_failure_counterexample:
  "snd (handle_request
     \<lparr>parse_dns_response = decodeQuery, extract_records = (\<lambda>_. Inr []),
      build_dns_response = (\<lambda>tid pkt recs qn qt. Inr [tid, length recs])\<rparr>
     \<lparr>req_now = 100, req_upstream = RecvTimedOut, req_clk = (\<lambda>_. 100)\<rparr>
     [0, 7, 1, 0, 0, 1, 0, 0, 0, 0, 0, 0, 1, 97, 0, 0, 1, 0, 1] (''10.0.0.1'', 4000)
     [(''1:a'', [\<lparr>name = ''a'', type = 1, data = ''1.2.3.4'', ttl = 5, timestamp = 0\<rparr>])])
   \<noteq> [(''1:a'', [\<lparr>name = ''a'', type = 1, data = ''1.2.3.4'', ttl = 5, timestamp = 0\<rparr>])]"
  using decode_example key_a
  by (simp add: handle_request_def forward_upstream_def cache_lookup_def get_default_def
      live_def Let_def)


text \<open>
  C7, amended. When, on a miss, the upstream send fails or the receive (on a socket with
  a timeout of 5 seconds) times out or fails, the handler prints the error, sends
  nothing to the client and sends to upstream only once; nothing is inserted, and the
  cache is what the lookup left: the given cache without the key of the query, which is
  the given cache itself when the key was not in it.
\<close>

theorem upstream_failure:
  assumes "parse_dns_response u pkt = Inr (qn, qt, tid)"
    and "filter (live (req_now e)) (get_default c (cache_key qt qn)) = []"
    and "req_upstream e \<in> {SendFailed, RecvTimedOut, RecvFailed}"
  shows "fst (handle_request u e pkt addr c) =
            [LockAcquire, CacheAccess, CacheAccess]
              @ (if cache_key qt qn \<in> set (map fst c) then [CacheAccess] else [])
              @ [LockRelease, Print (CACHE_MISS qn qt), SocketOpen, SetTimeout 5,
                 UpstreamSendTo pkt (''8.8.8.8'', 53)]
              @ (if req_upstream e = SendFailed then [] else [UpstreamRecvFrom 512])
              @ [Print (ERROR (if req_upstream e = RecvTimedOut then SocketTimeout else OSError) pkt)]
    \<and> snd (handle_request u e pkt addr c) = AList.delete (cache_key qt qn) c
    \<and> (map_of c (cache_key qt qn) = None \<longrightarrow> snd (handle_request u e pkt addr c) = c)"
proof -
  have "map_of c (cache_key qt qn) = None \<longrightarrow> AList.delete (cache_key qt qn) c = c"
    by (simp add: map_of_eq_None_iff)
  with assms(3) show ?thesis
    by (auto simp: miss_result [OF assms(1,2)] forward_upstream_def UPSTREAM_DNS_def BUFFER_SIZE_def
        Let_def)
qed


text \<open>
  The query for \<^verbatim>\<open>a\<close> at time 100, the receive from upstream timing out: no \<open>SendTo\<close>
  in the trace, and the expired key is gone.
\<close>

theorem upstream_failure_witness:
  "parse_dns_response
     \<lparr>parse_dns_response = decodeQuery, extract_records = (\<lambda>_. Inr []),
      build_dns_response = (\<lambda>tid pkt recs qn qt. Inr [tid, length recs])\<rparr>
     [0, 7, 1, 0, 0, 1, 0, 0, 0, 0, 0, 0, 1, 97, 0, 0, 1, 0, 1] = Inr (''a'', 1, 7)
   \<and> filter (live 100)
       (get_default [(''1:a'', [\<lparr>name = ''a'', type = 1, data = ''1.2.3.4'', ttl = 5, timestamp = 0\<rparr>])]
          (cache_key 1 ''a'')) = []
   \<and> handle_request
     \<lparr>parse_dns_response = decodeQuery, extract_records = (\<lambda>_. Inr []),
      build_dns_response = (\<lambda>tid pkt recs qn qt. Inr [tid, length recs])\<rparr>
     \<lparr>req_now = 100, req_upstream = RecvTimedOut, req_clk = (\<lambda>_. 100)\<rparr>
     [0, 7, 1, 0, 0, 1, 0, 0, 0, 0, 0, 0, 1, 97, 0, 0, 1, 0, 1] (''10.0.0.1'', 4000)
     [(''1:a'', [\<lparr>name = ''a'', type = 1, data = ''1.2.3.4'', ttl = 5, timestamp = 0\<rparr>])]
     = ([LockAcquire, CacheAccess, CacheAccess, CacheAccess, LockRelease,
         Print (CACHE_MISS ''a'' 1), SocketOpen, SetTimeout 5,
         UpstreamSendTo [0, 7, 1, 0, 0, 1, 0, 0, 0, 0, 0, 0, 1, 97, 0, 0, 1, 0, 1] (''8.8.8.8'', 53),
         UpstreamRecvFrom 512,
         Print (ERROR SocketTimeout [0, 7, 1, 0, 0, 1, 0, 0, 0, 0, 0, 0, 1, 97, 0, 0, 1, 0, 1])],
        [])"
proof -
  let ?u = "\<lparr>parse_dns_response = decodeQuery, extract_records = (\<lambda>_. Inr []),
      build_dns_response = (\<lambda>tid pkt recs qn qt. Inr [tid, length recs])\<rparr>"
  let ?e = "\<lparr>req_now = 100, req_upstream = RecvTimedOut, req_clk = (\<lambda>_. 100)\<rparr>"
  let ?pkt = "[0, 7, 1, 0, 0, 1, 0, 0, 0, 0, 0, 0, 1, 97, 0, 0, 1, 0, 1::nat]"
  let ?c = "[(''1:a'', [\<lparr>name = ''a'', type = 1, data = ''1.2.3.4'', ttl = 5, timestamp = 0\<rparr>])]"
  have p: "parse_dns_response ?u ?pkt = Inr (''a'', 1, 7)"
    using decode_example by simp
  have m: "filter (live (req_now ?e)) (get_default ?c (cache_key 1 ''a'')) = []"
    using key_a by (simp add: get_default_def live_def)
  have f: "req_upstream ?e \<in> {SendFailed, RecvTimedOut, RecvFailed}" by simp
  from upstream_failure [OF p m f, of "(''10.0.0.1'', 4000)"] key_a
  have "handle_request ?u ?e ?pkt (''10.0.0.1'', 4000) ?c =
      ([LockAcquire, CacheAccess, CacheAccess, CacheAccess, LockRelease,
         Print (CACHE_MISS ''a'' 1), SocketOpen, SetTimeout 5,
         UpstreamSendTo ?pkt (''8.8.8.8'', 53), UpstreamRecvFrom 512,
         Print (ERROR SocketTimeout ?pkt)], [])"
    by (simp add: prod_eq_iff)
  with p m show ?thesis by simp
qed


subsection \<open>The lock\<close>

lemma lock_spans_io_accesses:
  "lock_spans_io held (map (\<lambda>_. CacheAccess) xs @ es) = lock_spans_io held es"
  by (induction xs) simp_all

lemma unlocked_access_accesses:
  "unlocked_access True (map (\<lambda>_. CacheAccess) xs @ es) = unlocked_access True es"
  by (induction xs) simp_all

lemma handler_accesses_locked: "\<not> unlocked_access False (fst (handle_request u e pkt addr c))"
  by (simp add: handle_request_def forward_upstream_def Let_def unlocked_access_accesses
      split: sum.splits prod.splits upstream_outcome.splits)

lemma cleanup_accesses_locked: "\<not> unlocked_access False (fst (cleanup_cache_iteration now c))"
  by (simp add: cleanup_cache_iteration_def save_cache_def unlocked_access_accesses
      split: sum.splits)

lemma load_no_io_under_lock: "\<not> lock_spans_io False (fst (load_cache now f))"
  by (simp add: load_cache_def split: snapshot_file.splits sum.splits)

lemma miss_no_io_under_lock:
  assumes "parse_dns_response u pkt = Inr (qn, qt, tid)"
    and "filter (live (req_now e)) (get_default c (cache_key qt qn)) = []"
  shows "\<not> lock_spans_io False (fst (handle_request u e pkt addr c))"
  by (simp add: miss_result [OF assms] forward_upstream_def Let_def lock_spans_io_accesses
      split: sum.splits upstream_outcome.splits)

text \<open>
  C1, as stated, fails: \<^verbatim>\<open>save_cache\<close> opens and writes the file inside its
  \<^verbatim>\<open>with cache_lock\<close> block, and on a hit the handler sends the response inside its
  block.
\<close>

theorem lock_scope_counterexample:
  "lock_spans_io False (fst (save_cache []))
   \<and> lock_spans_io False (fst (handle_request
        \<lparr>parse_dns_response = decodeQuery, extract_records = (\<lambda>_. Inr []),
         build_dns_response = (\<lambda>tid pkt recs qn qt. Inr [tid, length recs])\<rparr>
        \<lparr>req_now = 10, req_upstream = RecvTimedOut, req_clk = (\<lambda>_. 10)\<rparr>
        [0, 7, 1, 0, 0, 1, 0, 0, 0, 0, 0, 0, 1, 97, 0, 0, 1, 0, 1] (''10.0.0.1'', 4000)
        [(''1:a'', [\<lparr>name = ''a'', type = 1, data = ''1.2.3.4'', ttl = 300, timestamp = 0\<rparr>])]))"
  using decode_example key_a
  by (simp add: save_cache_def handle_request_def cache_lookup_def get_default_def live_def Let_def)


text \<open>
  C1, amended. The handler, \<^verbatim>\<open>save_cache\<close>, an iteration of \<^verbatim>\<open>cleanup_cache\<close> and the
  load of a parsed snapshot touch the entries of the cache only with the lock held. No
  lock spans I/O in \<^verbatim>\<open>load_cache\<close> (the file is read before the lock is taken), in the
  handler when decoding fails (no lock is taken) or when the lookup misses (the lock is
  released before the upstream exchange and the relay, and taken again for the inserts),
  and the sweep releases its lock before it calls \<^verbatim>\<open>save_cache\<close>. But \<^verbatim>\<open>save_cache\<close>
  holds the lock across the opening and writing of the file, and on a hit the response
  is sent to the client with the lock held.
\<close>

theorem lock_scope:
  "\<not> unlocked_access False (fst (handle_request u e pkt addr c))
   \<and> \<not> unlocked_access False (fst (save_cache c))
   \<and> \<not> unlocked_access False (fst (cleanup_cache_iteration now c))
   \<and> \<not> unlocked_access False (fst (load_cache now (Snapshot raw)))
   \<and> \<not> lock_spans_io False (fst (load_cache now f))
   \<and> (parse_dns_response u pkt = Inl ex \<longrightarrow>
        \<not> lock_spans_io False (fst (handle_request u e pkt addr c)))
   \<and> (parse_dns_response u pkt = Inr (qn, qt, tid)
        \<and> filter (live (req_now e)) (get_default c (cache_key qt qn)) = [] \<longrightarrow>
        \<not> lock_spans_io False (fst (handle_request u e pkt addr c)))
   \<and> (distinct (map fst c) \<longrightarrow>
        (\<exists>c1. fst (cleanup_cache_iteration now c) =
           [Sleep 60, LockAcquire, CacheAccess] @ map (\<lambda>_. CacheAccess) c @ [LockRelease]
             @ fst (save_cache c1) @ [CacheLen, Print (INFO_cleaned (length c1))]))
   \<and> fst (save_cache c) =
        [LockAcquire, FileOpen ''cache.json'' ''w'', CacheAccess, JsonDump c, LockRelease]
   \<and> lock_spans_io False (fst (save_cache c))
   \<and> (parse_dns_response u pkt = Inr (qn, qt, tid)
        \<and> filter (live (req_now e)) (get_default c (cache_key qt qn)) \<noteq> []
        \<and> build_dns_response u tid pkt
             (filter (live (req_now e)) (get_default c (cache_key qt qn))) qn qt = Inr response \<longrightarrow>
        lock_spans_io False (fst (handle_request u e pkt addr c)))"
proof (intro conjI impI)
  show "\<not> unlocked_access False (fst (handle_request u e pkt addr c))"
    by (rule handler_accesses_locked)
  show "\<not> unlocked_access False (fst (save_cache c))"
    by (simp add: save_cache_def)
  show "\<not> unlocked_access False (fst (cleanup_cache_iteration now c))"
    by (rule cleanup_accesses_locked)
  show "\<not> unlocked_access False (fst (load_cache now (Snapshot raw)))"
    by (simp add: load_cache_def split: sum.splits)
  show "\<not> lock_spans_io False (fst (load_cache now f))"
    by (rule load_no_io_under_lock)
  show "fst (save_cache c) =
        [LockAcquire, FileOpen ''cache.json'' ''w'', CacheAccess, JsonDump c, LockRelease]"
    by (simp add: save_cache_def CACHE_FILE_def)
  show "lock_spans_io False (fst (save_cache c))"
    by (simp add: save_cache_def)
next
  assume "parse_dns_response u pkt = Inl ex"
  then show "\<not> lock_spans_io False (fst (handle_request u e pkt addr c))"
    by (simp add: handle_request_def)
next
  assume "parse_dns_response u pkt = Inr (qn, qt, tid)
        \<and> filter (live (req_now e)) (get_default c (cache_key qt qn)) = []"
  then show "\<not> lock_spans_io False (fst (handle_request u e pkt addr c))"
    using miss_no_io_under_lock by blast
next
  assume "distinct (map fst c)"
  then show "\<exists>c1. fst (cleanup_cache_iteration now c) =
           [Sleep 60, LockAcquire, CacheAccess] @ map (\<lambda>_. CacheAccess) c @ [LockRelease]
             @ fst (save_cache c1) @ [CacheLen, Print (INFO_cleaned (length c1))]"
    by (intro exI [of _ "swept now c"]) (simp add: cleanup_cache_iteration_def expire_swept)
next
  assume "parse_dns_response u pkt = Inr (qn, qt, tid)
        \<and> filter (live (req_now e)) (get_default c (cache_key qt qn)) \<noteq> []
        \<and> build_dns_response u tid pkt
             (filter (live (req_now e)) (get_default c (cache_key qt qn))) qn qt = Inr response"
  then show "lock_spans_io False (fst (handle_request u e pkt addr c))"
    by (simp add: handle_request_def lookup_fst Let_def)
qed

text \<open>
  One cache, one query: at time 400 the entry has expired and the miss path performs no
  I/O under the lock; at time 10 it is live and the response is sent under the lock.
\<close>

theorem lock_scope_witness:
  "parse_dns_response
     \<lparr>parse_dns_response = decodeQuery, extract_records = (\<lambda>_. Inr []),
      build_dns_response = (\<lambda>tid pkt recs qn qt. Inr [tid, length recs])\<rparr>
     [0, 7, 1, 0, 0, 1, 0, 0, 0, 0, 0, 0, 1, 97, 0, 0, 1, 0, 1] = Inr (''a'', 1, 7)
   \<and> filter (live 400)
       (get_default [(''1:a'', [\<lparr>name = ''a'', type = 1, data = ''1.2.3.4'', ttl = 300, timestamp = 0\<rparr>])]
          (cache_key 1 ''a'')) = []
   \<and> \<not> lock_spans_io False (fst (handle_request
        \<lparr>parse_dns_response = decodeQuery, extract_records = (\<lambda>_. Inr []),
         build_dns_response = (\<lambda>tid pkt recs qn qt. Inr [tid, length recs])\<rparr>
        \<lparr>req_now = 400, req_upstream = Replied [0, 7, 129, 128], req_clk = (\<lambda>_. 400)\<rparr>
        [0, 7, 1, 0, 0, 1, 0, 0, 0, 0, 0, 0, 1, 97, 0, 0, 1, 0, 1] (''10.0.0.1'', 4000)
        [(''1:a'', [\<lparr>name = ''a'', type = 1, data = ''1.2.3.4'', ttl = 300, timestamp = 0\<rparr>])]))
   \<and> filter (live 10)
       (get_default [(''1:a'', [\<lparr>name = ''a'', type = 1, data = ''1.2.3.4'', ttl = 300, timestamp = 0\<rparr>])]
          (cache_key 1 ''a'')) \<noteq> []
   \<and> lock_spans_io False (fst (handle_request
        \<lparr>parse_dns_response = decodeQuery, extract_records = (\<lambda>_. Inr []),
         build_dns_response = (\<lambda>tid pkt recs qn qt. Inr [tid, length recs])\<rparr>
        \<lparr>req_now = 10, req_upstream = Replied [0, 7, 129, 128], req_clk = (\<lambda>_. 10)\<rparr>
        [0, 7, 1, 0, 0, 1, 0, 0, 0, 0, 0, 0, 1, 97, 0, 0, 1, 0, 1] (''10.0.0.1'', 4000)
        [(''1:a'', [\<lparr>name = ''a'', type = 1, data = ''1.2.3.4'', ttl = 300, timestamp = 0\<rparr>])]))"
proof -
  let ?u = "\<lparr>parse_dns_response = decodeQuery, extract_records = (\<lambda>_. Inr []),
      build_dns_response = (\<lambda>tid pkt recs qn qt. Inr [tid, length recs])\<rparr>"
  let ?late = "\<lparr>req_now = 400, req_upstream = Replied [0, 7, 129, 128], req_clk = (\<lambda>_. 400)\<rparr>"
  let ?early = "\<lparr>req_now = 10, req_upstream = Replied [0, 7, 129, 128], req_clk = (\<lambda>_. 10)\<rparr>"
  let ?pkt = "[0, 7, 1, 0, 0, 1, 0, 0, 0, 0, 0, 0, 1, 97, 0, 0, 1, 0, 1::nat]"
  let ?c = "[(''1:a'', [\<lparr>name = ''a'', type = 1, data = ''1.2.3.4'', ttl = 300, timestamp = 0\<rparr>])]"
  have p: "parse_dns_response ?u ?pkt = Inr (''a'', 1, 7)"
    using decode_example by simp
  have miss: "filter (live (req_now ?late)) (get_default ?c (cache_key 1 ''a'')) = []"
    using key_a by (simp add: get_default_def live_def)
  have hit: "filter (live (req_now ?early)) (get_default ?c (cache_key 1 ''a'')) \<noteq> []"
    using key_a by (simp add: get_default_def live_def)
  have b: "build_dns_response ?u 7 ?pkt
      (filter (live (req_now ?early)) (get_default ?c (cache_key 1 ''a''))) ''a'' 1 = Inr [7, 1]"
    using key_a by (simp add: get_default_def live_def)
  from lock_scope [where u = ?u and e = ?late and pkt = ?pkt and c = ?c and qn = "''a''" and qt = 1
      and tid = 7 and addr = "(''10.0.0.1'', 4000)"] p miss
  have m: "\<not> lock_spans_io False (fst (handle_request ?u ?late ?pkt (''10.0.0.1'', 4000) ?c))"
    by blast
  from lock_scope [where u = ?u and e = ?early and pkt = ?pkt and c = ?c and qn = "''a''" and qt = 1
      and tid = 7 and addr = "(''10.0.0.1'', 4000)" and response = "[7, 1]"] p hit b
  have h: "lock_spans_io False (fst (handle_request ?u ?early ?pkt (''10.0.0.1'', 4000) ?c))"
    by blast
  from p miss hit m h show ?thesis by simp
qed

end
